theory Spec2Isabelle
  imports
    Main
    "HOL-Library.AList"
    "HOL-Library.Char_ord"
    "HOL-Library.List_Lexorder"
    "HOL-Library.Multiset"
    "HOL-Library.Word"
begin

section \<open>JavaScript values used by the exporters\<close>

text \<open>
  Strings are \<^typ>\<open>string\<close>; face names are taken to be ASCII, where JavaScript's
  comparison of UTF-16 code units is the lexicographic order of the characters
  (\<open>List_Lexorder\<close> over \<open>Char_ord\<close>) and \<open>toUpperCase\<close> changes the letters
  \<open>a\<close> to \<open>z\<close> only. An object used as a dictionary (\<open>Record<string, string[]>\<close>) is an
  association list of its own properties in insertion order, looked up with
  \<^const>\<open>map_of\<close>. Reading a key that is not an own property goes to \<open>Object.prototype\<close>:
  for the names in \<open>inheritedKeys\<close> the value read is a function (for \<open>__proto__\<close> the
  prototype itself), which is truthy and has neither \<open>push\<close> nor \<open>join\<close>; for every
  other name it is \<open>undefined\<close>.
\<close>

datatype js_error =
    TypeError
  | RangeError
  | ImageLoadError string
  | NoContextError

definition toUpperChar :: "char \<Rightarrow> char" where
  "toUpperChar c =
     (let n = (of_char c :: nat) in if 97 \<le> n \<and> n \<le> 122 then char_of (n - 32) else c)"

definition toUpperCase :: "string \<Rightarrow> string" where
  "toUpperCase s = map toUpperChar s"

text \<open>\<open>Array.prototype.join\<close> on an array of strings.\<close>

fun join :: "string \<Rightarrow> string list \<Rightarrow> string" where
  "join sep [] = []"
| "join sep [x] = x"
| "join sep (x # y # ys) = x @ sep @ join sep (y # ys)"

definition digit_char :: "nat \<Rightarrow> char" where
  "digit_char d = char_of (48 + d)"

text \<open>The decimal text of a non-negative integer, as a template literal renders it.\<close>

function string_of_nat :: "nat \<Rightarrow> string" where
  "string_of_nat n =
     (if n < 10 then [digit_char n] else string_of_nat (n div 10) @ [digit_char (n mod 10)])"
  by pat_completeness auto
termination
  by (relation "measure id") auto

declare string_of_nat.simps [simp del]

definition inheritedKeys :: "string list" where
  "inheritedKeys =
     [''constructor'', ''__defineGetter__'', ''__defineSetter__'', ''hasOwnProperty'',
      ''__lookupGetter__'', ''__lookupSetter__'', ''isPrototypeOf'', ''propertyIsEnumerable'',
      ''toString'', ''valueOf'', ''__proto__'', ''toLocaleString'']"

definition INVALID_FACE :: string where
  "INVALID_FACE = ''INVALID_FACE''"

text \<open>The value of a dictionary at a key, or the empty list where the key is absent.\<close>

definition outlist :: "('k \<times> string list) list \<Rightarrow> 'k \<Rightarrow> string list" where
  "outlist m k = (case map_of m k of None \<Rightarrow> [] | Some l \<Rightarrow> l)"

section \<open>The faces store and the graph model (\<open>mapping.ts\<close>)\<close>

record face =
  name :: string
  images :: "string list"

text \<open>
  Modelled from the spec: the interfaces \<open>AbstractedLink\<close> and \<open>AbstractedRectangleImage\<close>
  (\<open>@/constants/interfaces/AbstractedElements\<close>) are imported by \<open>mapping.ts\<close> and not
  part of the sources. The spec gives node records \<open>{id, name, ...}\<close> and link records
  \<open>{source: {id}, target: {id}, type, isBiDirectional?}\<close>. A cell carries every field
  that \<open>mapping.ts\<close> reads; a field that a cell does not have is \<open>None\<close>
  (\<open>undefined\<close> in the source).
\<close>

datatype cell = Cell
  (cell_id: string)
  (cell_type: string)
  (cell_name: "string option")
  (cell_source: "string option")
  (cell_target: "string option")
  (cell_isBiDirectional: bool)

type_synonym mappings = "(string \<times> string list) list"

text \<open>
  \<open>getElementNameById\<close>: \<open>cells.find(cell => cell.id === id)\<close> is \<open>undefined\<close> when no cell
  has the identifier, and reading \<open>.name\<close> of \<open>undefined\<close> throws a \<open>TypeError\<close> (the cast
  \<open>as AbstractedRectangleImage\<close> checks nothing at run time).
\<close>

definition getElementNameById :: "cell list \<Rightarrow> string option \<Rightarrow> js_error + string option" where
  "getElementNameById cells i =
     (case find (\<lambda>c. Some (cell_id c) = i) cells of
        None \<Rightarrow> Inl TypeError
      | Some c \<Rightarrow> Inr (cell_name c))"

text \<open>A property key: \<open>undefined\<close> used as a key is the string \<open>"undefined"\<close>.\<close>

definition propertyKey :: "string option \<Rightarrow> string" where
  "propertyKey k = (case k of None \<Rightarrow> ''undefined'' | Some s \<Rightarrow> s)"

text \<open>
  \<open>addMapping\<close>. \<open>if (!map[face]) map[face] = []\<close> creates the list only when reading the
  key gives \<open>undefined\<close>; for an inherited name the value read is truthy, nothing is
  created, and \<open>map[face].push\<close> is not a function: the call throws a \<open>TypeError\<close>.
\<close>

definition addMapping :: "mappings \<Rightarrow> string \<Rightarrow> string \<Rightarrow> js_error + mappings" where
  "addMapping m fc target =
     (case map_of m fc of
        None \<Rightarrow>
          if fc \<in> set inheritedKeys then Inl TypeError
          else Inr (AList.update fc [toUpperCase target] m)
      | Some l \<Rightarrow> Inr (AList.update fc (l @ [toUpperCase target]) m))"

text \<open>
  \<open>faces.value.find((face) => face.name === to)?.name\<close>: the name of the first face
  called \<open>to\<close>, \<open>undefined\<close> when there is none (or when \<open>to\<close> is \<open>undefined\<close>).
\<close>

definition findTarget :: "face list \<Rightarrow> string option \<Rightarrow> string option" where
  "findTarget faces t =
     (case find (\<lambda>f. Some (name f) = t) faces of None \<Rightarrow> None | Some f \<Rightarrow> Some (name f))"

text \<open>
  The body of the \<open>forEach\<close> of \<open>generateMappings\<close> for one link. \<open>if (!target) return\<close>
  leaves the mappings as they are when the target is \<open>undefined\<close> or the empty string.
\<close>

definition mappingStep :: "face list \<Rightarrow> cell list \<Rightarrow> cell \<Rightarrow> mappings \<Rightarrow> js_error + mappings" where
  "mappingStep faces cells link m =
     (case getElementNameById cells (cell_source link) of
        Inl e \<Rightarrow> Inl e
      | Inr from_name \<Rightarrow>
          (case getElementNameById cells (cell_target link) of
             Inl e \<Rightarrow> Inl e
           | Inr to_name \<Rightarrow>
               (case findTarget faces to_name of
                  None \<Rightarrow> Inr m
                | Some target \<Rightarrow>
                    if target = [] then Inr m
                    else addMapping m (propertyKey from_name) target)))"

fun mappingLoop :: "face list \<Rightarrow> cell list \<Rightarrow> cell list \<Rightarrow> mappings \<Rightarrow> js_error + mappings" where
  "mappingLoop faces cells [] m = Inr m"
| "mappingLoop faces cells (link # links) m =
     (case mappingStep faces cells link m of
        Inl e \<Rightarrow> Inl e
      | Inr m' \<Rightarrow> mappingLoop faces cells links m')"

definition linkCells :: "cell list \<Rightarrow> cell list" where
  "linkCells cells = filter (\<lambda>c. cell_type c = ''standard.Link'') cells"

definition generateMappings :: "face list \<Rightarrow> cell list \<Rightarrow> js_error + mappings" where
  "generateMappings faces cells = mappingLoop faces cells (linkCells cells) []"

definition getMaxLinks :: "mappings \<Rightarrow> nat" where
  "getMaxLinks m = foldl (\<lambda>acc cur. max acc (length cur)) 0 (map snd m)"

text \<open>
  \<open>generateFileMappings\<close>, first loop: every out-list is sorted and extended by
  \<open>Array(max - length).fill("INVALID_FACE")\<close>; \<open>Array\<close> of a negative length throws a
  \<open>RangeError\<close>. The keys walked are the own properties of \<open>mappings\<close>, which
  \<open>addMapping\<close> built: none of them has an inherited name.
\<close>

fun fullMappings :: "mappings \<Rightarrow> nat \<Rightarrow> js_error + mappings" where
  "fullMappings [] mx = Inr []"
| "fullMappings ((k, v) # m) mx =
     (if mx < length v then Inl RangeError
      else (case fullMappings m mx of
              Inl e \<Rightarrow> Inl e
            | Inr full \<Rightarrow> Inr ((k, sort v @ replicate (mx - length v) INVALID_FACE) # full)))"

text \<open>
  The row of one face in the second loop: \<open>fullMappings[face.name]\<close> when it is an own
  property; otherwise, for an inherited name, the value read is truthy, no row is
  created and \<open>.join\<close> throws a \<open>TypeError\<close>; otherwise \<open>Array(max).fill("INVALID_FACE")\<close>.
\<close>

definition faceRow :: "mappings \<Rightarrow> nat \<Rightarrow> face \<Rightarrow> js_error + string list" where
  "faceRow full mx f =
     (case map_of full (name f) of
        None \<Rightarrow>
          if name f \<in> set inheritedKeys then Inl TypeError
          else Inr (replicate mx INVALID_FACE)
      | Some row \<Rightarrow> Inr row)"

fun faceRows :: "mappings \<Rightarrow> nat \<Rightarrow> face list \<Rightarrow> js_error + string list list" where
  "faceRows full mx [] = Inr []"
| "faceRows full mx (f # fs) =
     (case faceRow full mx f of
        Inl e \<Rightarrow> Inl e
      | Inr row \<Rightarrow>
          (case faceRows full mx fs of
             Inl e \<Rightarrow> Inl e
           | Inr rows \<Rightarrow> Inr (row # rows)))"

definition fileRows :: "face list \<Rightarrow> mappings \<Rightarrow> nat \<Rightarrow> js_error + string list list" where
  "fileRows faces m mx =
     (case fullMappings m mx of
        Inl e \<Rightarrow> Inl e
      | Inr full \<Rightarrow> faceRows full mx faces)"

text \<open>The text of one row, as the second loop of \<open>generateFileMappings\<close> appends it.\<close>

definition rowLine :: "nat \<Rightarrow> nat \<Rightarrow> face \<Rightarrow> string list \<Rightarrow> string" where
  "rowLine n index f row =
     ''  {'' @ join '', '' row @ ''}'' @ (if index \<noteq> n - 1 then '','' else [])
       @ '' //'' @ toUpperCase (name f) @ [CHR 0x0A]"

definition generateFileMappings :: "face list \<Rightarrow> mappings \<Rightarrow> nat \<Rightarrow> js_error + string" where
  "generateFileMappings faces m mx =
     (case fileRows faces m mx of
        Inl e \<Rightarrow> Inl e
      | Inr rows \<Rightarrow>
          Inr (concat (map (\<lambda>(index, f, row). rowLine (length faces) index f row)
                 (zip [0..<length faces] (zip faces rows)))))"

definition generateDefines :: "face list \<Rightarrow> string" where
  "generateDefines faces =
     join [CHR 0x0A]
       (map (\<lambda>(index, f). ''#define '' @ toUpperCase (name f) @ '' '' @ string_of_nat index)
          (zip [0..<length faces] faces))"

definition generateConfigFile :: "face list \<Rightarrow> cell list \<Rightarrow> js_error + string" where
  "generateConfigFile faces cells =
     (case generateMappings faces cells of
        Inl e \<Rightarrow> Inl e
      | Inr m \<Rightarrow>
          (let maxLinks = getMaxLinks m in
           case generateFileMappings faces m maxLinks of
             Inl e \<Rightarrow> Inl e
           | Inr fileMappings \<Rightarrow>
               Inr (''#define NUMBER_FACES '' @ string_of_nat (length faces) @ [CHR 0x0A]
                    @ ''#define INVALID_FACE -1'' @ [CHR 0x0A]
                    @ generateDefines faces @ [CHR 0x0A] @ [CHR 0x0A]
                    @ ''const int8_t nextFaces[]['' @ string_of_nat maxLinks @ ''] = {''
                    @ [CHR 0x0A] @ fileMappings @ ''};'' @ [CHR 0x0A])))"

section \<open>The bitmap packer (\<open>mapping.ts\<close>) and the editor's decoder (\<open>TheEditor.vue\<close>)\<close>

text \<open>
  \<open>generateBinaryStrings\<close>. \<open>Array.from(pixelData, (_, i) => pixelData[i * 4])\<close> has the
  length of \<open>pixelData\<close> and holds \<open>undefined\<close> from the index where \<open>i * 4\<close> leaves the
  array; the \<open>filter\<close> drops those entries. \<open>val ? 0 : 1\<close> tests the sample for
  truthiness: only the sample \<open>0\<close> gives \<open>1\<close>.
\<close>

definition redChannelData :: "8 word list \<Rightarrow> nat list" where
  "redChannelData pixelData =
     map (\<lambda>val. if val \<noteq> 0 then 0 else 1)
       (List.map_filter
          (\<lambda>i. if i * 4 < length pixelData then Some (pixelData ! (i * 4)) else None)
          [0..<length pixelData])"

function binaryStringsFrom :: "nat \<Rightarrow> nat list \<Rightarrow> string list" where
  "binaryStringsFrom i xs =
     (if i < length xs
      then (''0b'' @ concat (map string_of_nat (take 8 (drop i xs))))
             # binaryStringsFrom (i + 8) xs
      else [])"
  by pat_completeness auto
termination
  by (relation "measure (\<lambda>(i, xs). length xs - i)") auto

declare binaryStringsFrom.simps [simp del]

definition generateBinaryStrings :: "8 word list \<Rightarrow> string list" where
  "generateBinaryStrings pixelData = binaryStringsFrom 0 (redChannelData pixelData)"

text \<open>
  \<open>generateDataFromImg\<close> of the editor: one entry per pixel of the 32 by 16 image, in 32
  columns of 16, \<open>Number(redData) < 255 ? 1 : 0\<close>. The image is given by its red channel;
  the function returns nothing when the drawing context is missing.
\<close>

definition IMAGE_WIDTH :: nat where
  "IMAGE_WIDTH = 32"

definition IMAGE_HEIGHT :: nat where
  "IMAGE_HEIGHT = 16"

definition editorPixel :: "8 word \<Rightarrow> nat" where
  "editorPixel redData = (if unat redData < 255 then 1 else 0)"

definition generateDataFromImg :: "bool \<Rightarrow> (nat \<Rightarrow> nat \<Rightarrow> 8 word) \<Rightarrow> nat list list option" where
  "generateDataFromImg ctx red =
     (if \<not> ctx then None
      else Some (map (\<lambda>x. map (\<lambda>y. editorPixel (red x y)) [0..<IMAGE_HEIGHT]) [0..<IMAGE_WIDTH]))"

text \<open>
  \<open>loadImage\<close> and \<open>generateArduinoFaces\<close>. The browser is a parameter: \<open>decodes src\<close> is
  the image that \<open>src\<close> loads to, \<open>None\<close> when loading fails (\<open>onerror\<close>), and
  \<open>drawImage img canvas\<close> is the RGBA data of the canvas after the image is drawn on it.
  \<open>await\<close> of a rejected promise throws, nothing catches it, so the promise of
  \<open>generateArduinoFaces\<close> rejects with the same error: the result \<open>Inl\<close>.
\<close>

definition loadImage :: "(string \<Rightarrow> 'img option) \<Rightarrow> string \<Rightarrow> js_error + 'img" where
  "loadImage decodes src =
     (case decodes src of
        None \<Rightarrow> Inl (ImageLoadError (''Failed to load image: '' @ src))
      | Some img \<Rightarrow> Inr img)"

fun layersLoop ::
  "(string \<Rightarrow> 'img option) \<Rightarrow> ('img \<Rightarrow> 8 word list \<Rightarrow> 8 word list) \<Rightarrow> string list
     \<Rightarrow> 8 word list \<Rightarrow> string list \<Rightarrow> js_error + (string list \<times> 8 word list)" where
  "layersLoop decodes drawImage [] canvas faceData = Inr (faceData, canvas)"
| "layersLoop decodes drawImage (src # srcs) canvas faceData =
     (case loadImage decodes src of
        Inl e \<Rightarrow> Inl e
      | Inr img \<Rightarrow>
          (let pixelData = drawImage img canvas;
               binaryStrings = generateBinaryStrings pixelData
           in layersLoop decodes drawImage srcs pixelData
                (faceData @ [''{'' @ join '', '' binaryStrings @ ''}''])))"

definition faceImages :: "face list \<Rightarrow> string \<Rightarrow> string list" where
  "faceImages faces k =
     (case find (\<lambda>item. name item = k) faces of None \<Rightarrow> [] | Some f \<Rightarrow> images f)"

fun facesLoop ::
  "(string \<Rightarrow> 'img option) \<Rightarrow> ('img \<Rightarrow> 8 word list \<Rightarrow> 8 word list) \<Rightarrow> face list
     \<Rightarrow> string list \<Rightarrow> 8 word list \<Rightarrow> string list \<Rightarrow> js_error + string list" where
  "facesLoop decodes drawImage faces [] canvas outputData = Inr outputData"
| "facesLoop decodes drawImage faces (k # ks) canvas outputData =
     (case layersLoop decodes drawImage (faceImages faces k) canvas [] of
        Inl e \<Rightarrow> Inl e
      | Inr (faceData, canvas') \<Rightarrow>
          (let facesString = join ('','' @ [CHR 0x0A]) (map (\<lambda>item. ''    '' @ item) faceData);
               facesString' = join [CHR 0x0A] [''  {'', facesString, ''  }'']
           in facesLoop decodes drawImage faces ks canvas' (outputData @ [facesString'])))"

definition generateArduinoFaces ::
  "bool \<Rightarrow> (string \<Rightarrow> 'img option) \<Rightarrow> ('img \<Rightarrow> 8 word list \<Rightarrow> 8 word list) \<Rightarrow> face list
     \<Rightarrow> js_error + string" where
  "generateArduinoFaces ctx decodes drawImage faces =
     (if \<not> ctx then Inl NoContextError
      else
        (case facesLoop decodes drawImage faces (sort (map name faces))
                (replicate (32 * 16 * 4) 0) [] of
           Inl e \<Rightarrow> Inl e
         | Inr outputData \<Rightarrow>
             Inr (join [CHR 0x0A]
                    [''static const byte allFaces[][2][64] PROGMEM = {'',
                     join ('','' @ [CHR 0x0A]) outputData,
                     ''};'' @ [CHR 0x0A]])))"

section \<open>The diagram of the first version (\<open>mapper.js\<close> and the \<open>LinkDrawn\<close> listener)\<close>

text \<open>
  The diagram library is not part of the repository; the model keeps what the two
  files use of it. A link's data object has the keys of its two nodes and the flag. The
  diagram has the keys of its nodes, in the order \<open>diagram.nodes\<close> visits them, the
  references of the links that are part of it, and the data object behind every
  reference, so that a link removed from the diagram keeps its data. \<open>findLinksOutOf\<close>
  collects the links leaving a node before the caller walks them.
\<close>

record link_data =
  l_from :: nat
  l_to :: nat
  isBiDirectional :: bool

record diagram =
  nodeKeys :: "nat list"
  linkParts :: "nat list"
  linkData :: "nat \<Rightarrow> link_data"

definition findLinksOutOf :: "diagram \<Rightarrow> nat \<Rightarrow> nat list" where
  "findLinksOutOf d n = filter (\<lambda>r. l_from (linkData d r) = n) (linkParts d)"

definition setDataProperty :: "diagram \<Rightarrow> nat \<Rightarrow> bool \<Rightarrow> diagram" where
  "setDataProperty d r v =
     d\<lparr>linkData := (linkData d)(r := (linkData d r)\<lparr>isBiDirectional := v\<rparr>)\<rparr>"

definition removePart :: "diagram \<Rightarrow> nat \<Rightarrow> diagram" where
  "removePart d r = d\<lparr>linkParts := removeAll r (linkParts d)\<rparr>"

text \<open>The \<open>while (iterator.next())\<close> loop of the \<open>LinkDrawn\<close> listener.\<close>

fun linkDrawnLoop :: "nat \<Rightarrow> nat list \<Rightarrow> diagram \<Rightarrow> diagram" where
  "linkDrawnLoop subject [] d = d"
| "linkDrawnLoop subject (item # items) d =
     (if l_to (linkData d item) = l_from (linkData d subject)
      then linkDrawnLoop subject items (setDataProperty (removePart d subject) item True)
      else linkDrawnLoop subject items d)"

text \<open>
  The listener. \<open>e.subject\<close> is the new link, already part of the diagram;
  \<open>e.subject.toNode\<close> is \<open>null\<close> when no node has the key \<open>to\<close>, and calling
  \<open>findLinksOutOf\<close> on it throws.
\<close>

definition onLinkDrawn :: "diagram \<Rightarrow> nat \<Rightarrow> js_error + diagram" where
  "onLinkDrawn d subject =
     (let d1 = setDataProperty d subject False;
          toNode = l_to (linkData d1 subject)
      in if toNode \<notin> set (nodeKeys d1) then Inl TypeError
         else Inr (linkDrawnLoop subject (findLinksOutOf d1 toNode) d1))"

text \<open>The invariant of the data model: no two links of the diagram join the same pair of nodes.\<close>

definition endpoints :: "link_data \<Rightarrow> nat set" where
  "endpoints l = {l_from l, l_to l}"

definition onePerPair :: "diagram \<Rightarrow> bool" where
  "onePerPair d =
     (distinct (linkParts d) \<and>
      (\<forall>r \<in> set (linkParts d). \<forall>r' \<in> set (linkParts d).
         r \<noteq> r' \<longrightarrow> endpoints (linkData d r) \<noteq> endpoints (linkData d r')))"

subsection \<open>\<open>mapper.js\<close>\<close>

text \<open>The keys of the mappings are node keys, numbers: no object inherits such a property.\<close>

type_synonym mappings_js = "(nat \<times> string list) list"

text \<open>\<open>facesArray[i]\<close>: \<open>undefined\<close> outside the array.\<close>

definition facesArrayAt :: "face list \<Rightarrow> nat \<Rightarrow> face option" where
  "facesArrayAt facesArray i = (if i < length facesArray then Some (facesArray ! i) else None)"

text \<open>\<open>addMapping\<close>: \<open>mapping.name\<close> throws a \<open>TypeError\<close> when \<open>mapping\<close> is \<open>undefined\<close>.\<close>

definition addMapping_js :: "mappings_js \<Rightarrow> nat \<Rightarrow> face option \<Rightarrow> js_error + mappings_js" where
  "addMapping_js m key mapping =
     (case mapping of
        None \<Rightarrow> Inl TypeError
      | Some f \<Rightarrow> Inr (AList.update key (outlist m key @ [toUpperCase (name f)]) m))"

fun linksLoop_js :: "face list \<Rightarrow> diagram \<Rightarrow> nat list \<Rightarrow> mappings_js \<Rightarrow> js_error + mappings_js" where
  "linksLoop_js facesArray d [] m = Inr m"
| "linksLoop_js facesArray d (r # rs) m =
     (let item = linkData d r in
      case addMapping_js m (l_from item) (facesArrayAt facesArray (l_to item)) of
        Inl e \<Rightarrow> Inl e
      | Inr m1 \<Rightarrow>
          if isBiDirectional item
          then (case addMapping_js m1 (l_to item) (facesArrayAt facesArray (l_from item)) of
                  Inl e \<Rightarrow> Inl e
                | Inr m2 \<Rightarrow> linksLoop_js facesArray d rs m2)
          else linksLoop_js facesArray d rs m1)"

fun nodesLoop_js :: "face list \<Rightarrow> diagram \<Rightarrow> nat list \<Rightarrow> mappings_js \<Rightarrow> js_error + mappings_js" where
  "nodesLoop_js facesArray d [] m = Inr m"
| "nodesLoop_js facesArray d (n # ns) m =
     (case linksLoop_js facesArray d (findLinksOutOf d n) m of
        Inl e \<Rightarrow> Inl e
      | Inr m' \<Rightarrow> nodesLoop_js facesArray d ns m')"

definition generateMappings_js :: "face list \<Rightarrow> diagram \<Rightarrow> js_error + mappings_js" where
  "generateMappings_js facesArray d = nodesLoop_js facesArray d (nodeKeys d) []"

definition getMaxLinks_js :: "mappings_js \<Rightarrow> nat" where
  "getMaxLinks_js m = fold (\<lambda>mapping mx. max mx (length (outlist m mapping))) (map fst m) 0"

text \<open>
  \<open>generateFileMappings\<close> of \<open>mapper.js\<close>: every out-list is extended with the sentinel
  while it is shorter than \<open>max\<close>, in the order the links were visited; the row of a
  face is the entry at its index.
\<close>

definition padMappings_js :: "mappings_js \<Rightarrow> nat \<Rightarrow> mappings_js" where
  "padMappings_js m mx = map (\<lambda>(k, v). (k, v @ replicate (mx - length v) INVALID_FACE)) m"

definition fileRows_js :: "face list \<Rightarrow> mappings_js \<Rightarrow> nat \<Rightarrow> string list list" where
  "fileRows_js facesArray m mx =
     map (\<lambda>index. case map_of (padMappings_js m mx) index of
                     None \<Rightarrow> replicate mx INVALID_FACE
                   | Some row \<Rightarrow> row)
       [0..<length facesArray]"

definition generateFileMappings_js :: "face list \<Rightarrow> mappings_js \<Rightarrow> nat \<Rightarrow> string" where
  "generateFileMappings_js facesArray m mx =
     concat (map (\<lambda>(index, f, row). rowLine (length facesArray) index f row)
       (zip [0..<length facesArray] (zip facesArray (fileRows_js facesArray m mx))))"

definition generateDefines_js :: "face list \<Rightarrow> string" where
  "generateDefines_js facesArray =
     concat (map (\<lambda>(index, f).
                ''#define '' @ toUpperCase (name f) @ '' '' @ string_of_nat index @ [CHR 0x0A])
       (zip [0..<length facesArray] facesArray))"

definition generateConfigFile_js :: "face list \<Rightarrow> diagram \<Rightarrow> js_error + string" where
  "generateConfigFile_js facesArray d =
     (case generateMappings_js facesArray d of
        Inl e \<Rightarrow> Inl e
      | Inr m \<Rightarrow>
          (let maxLinks = getMaxLinks_js m;
               fileMappings = generateFileMappings_js facesArray m maxLinks
           in Inr (''#define NUMBER_FACES '' @ string_of_nat (length facesArray) @ [CHR 0x0A]
                   @ ''#define INVALID_FACE -1'' @ [CHR 0x0A]
                   @ generateDefines_js facesArray @ [CHR 0x0A]
                   @ ''const int8_t nextFaces[]['' @ string_of_nat maxLinks @ ''] = {''
                   @ [CHR 0x0A] @ fileMappings @ ''};'' @ [CHR 0x0A])))"

text \<open>
  \<open>onClickExport\<close>: \<open>facesArray\<close> is \<open>undefined\<close> (\<open>None\<close>) until images are uploaded; an
  array, also the empty one, is truthy. The handler either alerts or downloads.
\<close>

datatype ui_effect = Alert string | Download string string

definition onClickExport :: "face list option \<Rightarrow> diagram \<Rightarrow> js_error + ui_effect" where
  "onClickExport facesArray d =
     (case facesArray of
        None \<Rightarrow> Inr (Alert ''No faces to export'')
      | Some fs \<Rightarrow>
          (case generateConfigFile_js fs d of
             Inl e \<Rightarrow> Inl e
           | Inr text \<Rightarrow> Inr (Download ''facesConfig.h'' text)))"

text \<open>\<open>onChangeImport\<close>, its guard only: \<open>!facesArray?.length\<close> holds for \<open>undefined\<close> and for the empty array.\<close>

definition importGuard :: "face list option \<Rightarrow> bool" where
  "importGuard facesArray = (case facesArray of None \<Rightarrow> True | Some fs \<Rightarrow> length fs = 0)"

section \<open>Views of the compilers used in the statements\<close>

text \<open>
  The tokens that a list of (key, token) entries holds for one key, in their order.
\<close>

definition entriesAt :: "'k \<Rightarrow> ('k \<times> string) list \<Rightarrow> string list" where
  "entriesAt k es = map snd (filter (\<lambda>e. fst e = k) es)"

text \<open>
  What one link adds in \<open>generateMappings\<close> of \<open>mapping.ts\<close>: one entry under the
  property key of its source name when both ends are found and the target names a face
  with a non-empty name, nothing otherwise.
\<close>

definition linkEntry :: "face list \<Rightarrow> cell list \<Rightarrow> cell \<Rightarrow> (string \<times> string) list" where
  "linkEntry faces cells link =
     (case (getElementNameById cells (cell_source link),
            getElementNameById cells (cell_target link)) of
        (Inr from_name, Inr to_name) \<Rightarrow>
          (case findTarget faces to_name of
             None \<Rightarrow> []
           | Some target \<Rightarrow>
               if target = [] then [] else [(propertyKey from_name, toUpperCase target)])
      | _ \<Rightarrow> [])"




text \<open>
  The round trip of claim C6, in the claim's words. The connectivity of the graph is the
  set of directed edges (source name, uppercase target name) of its links whose two
  ends are named cells; a link marked bidirectional stands for both directions.
  Re-deriving the out-lists from the emitted rows pairs the name of each face with the
  tokens of its row that are not the sentinel.
\<close>

definition edgeOf :: "cell list \<Rightarrow> cell \<Rightarrow> (string \<times> string) list" where
  "edgeOf cells link =
     (case (getElementNameById cells (cell_source link),
            getElementNameById cells (cell_target link)) of
        (Inr (Some a), Inr (Some b)) \<Rightarrow>
          (a, toUpperCase b)
            # (if cell_isBiDirectional link then [(b, toUpperCase a)] else [])
      | _ \<Rightarrow> [])"

definition connectivity :: "cell list \<Rightarrow> (string \<times> string) set" where
  "connectivity cells = set (concat (map (edgeOf cells) (linkCells cells)))"

definition rederive :: "face list \<Rightarrow> string list list \<Rightarrow> (string \<times> string) set" where
  "rederive faces rows =
     set (concat (map (\<lambda>(f, row). map (Pair (name f)) (filter (\<lambda>t. t \<noteq> INVALID_FACE) row))
                    (zip faces rows)))"

text \<open>
  A link that is not marked bidirectional and both of whose ends are cells named like
  faces, the target's name being non-empty and not spelled like the sentinel.
\<close>

definition linkResolved :: "face list \<Rightarrow> cell list \<Rightarrow> cell \<Rightarrow> bool" where
  "linkResolved faces cells link =
     (\<not> cell_isBiDirectional link \<and>
      (case (getElementNameById cells (cell_source link),
             getElementNameById cells (cell_target link)) of
         (Inr (Some a), Inr (Some b)) \<Rightarrow>
           a \<in> set (map name faces) \<and> b \<in> set (map name faces) \<and> b \<noteq> []
           \<and> toUpperCase b \<noteq> INVALID_FACE
       | _ \<Rightarrow> False))"

text \<open>No face is named like a property that every object inherits.\<close>

definition ownNames :: "face list \<Rightarrow> bool" where
  "ownNames faces = list_all (\<lambda>f. name f \<notin> set inheritedKeys) faces"

section \<open>Example inputs\<close>

text \<open>
  Three faces; a graph with the links \<open>a \<rightarrow> c\<close>, \<open>a \<rightarrow> b\<close>, \<open>b \<rightarrow> a\<close>, a graph with the
  single link \<open>a \<rightarrow> b\<close>, flagged bidirectional, and the same faces in a cycle
  \<open>a \<rightarrow> b \<rightarrow> c \<rightarrow> a\<close>.
\<close>

definition exFaces :: "face list" where
  "exFaces = [\<lparr>name = ''a'', images = []\<rparr>, \<lparr>name = ''b'', images = []\<rparr>,
              \<lparr>name = ''c'', images = []\<rparr>]"

definition exCells :: "cell list" where
  "exCells =
     [Cell ''n1'' ''standard.Image'' (Some ''a'') None None False,
      Cell ''n2'' ''standard.Image'' (Some ''b'') None None False,
      Cell ''n3'' ''standard.Image'' (Some ''c'') None None False,
      Cell ''l1'' ''standard.Link'' None (Some ''n1'') (Some ''n3'') False,
      Cell ''l2'' ''standard.Link'' None (Some ''n1'') (Some ''n2'') False,
      Cell ''l3'' ''standard.Link'' None (Some ''n2'') (Some ''n1'') False]"

definition exMappings :: mappings where
  "exMappings = [(''a'', [''C'', ''B'']), (''b'', [''A''])]"

definition flaggedCells :: "cell list" where
  "flaggedCells =
     [Cell ''n1'' ''standard.Image'' (Some ''a'') None None False,
      Cell ''n2'' ''standard.Image'' (Some ''b'') None None False,
      Cell ''l1'' ''standard.Link'' None (Some ''n1'') (Some ''n2'') True]"

definition cycleCells :: "cell list" where
  "cycleCells =
     [Cell ''n1'' ''standard.Image'' (Some ''a'') None None False,
      Cell ''n2'' ''standard.Image'' (Some ''b'') None None False,
      Cell ''n3'' ''standard.Image'' (Some ''c'') None None False,
      Cell ''l1'' ''standard.Link'' None (Some ''n1'') (Some ''n2'') False,
      Cell ''l2'' ''standard.Link'' None (Some ''n2'') (Some ''n3'') False,
      Cell ''l3'' ''standard.Link'' None (Some ''n3'') (Some ''n1'') False]"

definition cycleMappings :: mappings where
  "cycleMappings = [(''a'', [''B'']), (''b'', [''C'']), (''c'', [''A''])]"

text \<open>
  One face named \<open>constructor\<close>, alone or with a link to itself. One face \<open>a\<close>, with a
  graph that has a second node without a face: linked into
  \<open>a\<close> (\<open>ghostCells\<close>), or linked from \<open>a\<close> (\<open>unmatchedCells\<close>); and a graph whose
  link ends on the blank paper, its target having no identifier (\<open>danglingCells\<close>).
\<close>

definition inheritedFaces :: "face list" where
  "inheritedFaces = [\<lparr>name = ''constructor'', images = []\<rparr>]"

definition inheritedCells :: "cell list" where
  "inheritedCells =
     [Cell ''n1'' ''standard.Image'' (Some ''constructor'') None None False,
      Cell ''l1'' ''standard.Link'' None (Some ''n1'') (Some ''n1'') False]"

definition ghostFaces :: "face list" where
  "ghostFaces = [\<lparr>name = ''a'', images = []\<rparr>]"

definition ghostCells :: "cell list" where
  "ghostCells =
     [Cell ''n1'' ''standard.Image'' (Some ''a'') None None False,
      Cell ''n2'' ''standard.Image'' (Some ''ghost'') None None False,
      Cell ''l1'' ''standard.Link'' None (Some ''n2'') (Some ''n1'') False]"

definition unmatchedCells :: "cell list" where
  "unmatchedCells =
     [Cell ''n1'' ''standard.Image'' (Some ''a'') None None False,
      Cell ''n2'' ''standard.Image'' (Some ''b'') None None False,
      Cell ''l1'' ''standard.Link'' None (Some ''n1'') (Some ''n2'') False]"

definition danglingCells :: "cell list" where
  "danglingCells =
     [Cell ''n1'' ''standard.Image'' (Some ''a'') None None False,
      Cell ''l1'' ''standard.Link'' None (Some ''n1'') None False]"

text \<open>
  Diagrams of the first version: the spec's example (\<open>a \<leftrightarrow> b\<close> bidirectional,
  \<open>a \<rightarrow> c\<close>), a bidirectional self-loop, two links visited in the order \<open>a \<rightarrow> c\<close>,
  \<open>a \<rightarrow> b\<close>, and the empty diagram.
\<close>

definition exFaces_js :: "face list" where
  "exFaces_js = [\<lparr>name = ''a'', images = []\<rparr>, \<lparr>name = ''b'', images = []\<rparr>,
                 \<lparr>name = ''c'', images = []\<rparr>]"





definition pairDiagram :: diagram where
  "pairDiagram =
     \<lparr>nodeKeys = [0, 1, 2], linkParts = [0, 1],
      linkData = (\<lambda>r. if r = 0 then \<lparr>l_from = 0, l_to = 2, isBiDirectional = False\<rparr>
                      else \<lparr>l_from = 0, l_to = 1, isBiDirectional = False\<rparr>)\<rparr>"

definition emptyDiagram :: diagram where
  "emptyDiagram =
     \<lparr>nodeKeys = [], linkParts = [],
      linkData = (\<lambda>r. \<lparr>l_from = 0, l_to = 0, isBiDirectional = False\<rparr>)\<rparr>"

text \<open>
  Diagrams at the moment \<open>LinkDrawn\<close> fires, the new link having the reference 1: drawn
  from node 1 to node 0 while link 0 goes from 0 to 1, and drawn from node 1 to itself.
\<close>

definition drawnDiagram :: diagram where
  "drawnDiagram =
     \<lparr>nodeKeys = [0, 1], linkParts = [0, 1],
      linkData = (\<lambda>r. if r = 0 then \<lparr>l_from = 0, l_to = 1, isBiDirectional = False\<rparr>
                      else \<lparr>l_from = 1, l_to = 0, isBiDirectional = False\<rparr>)\<rparr>"

definition loopDiagram :: diagram where
  "loopDiagram =
     \<lparr>nodeKeys = [0, 1], linkParts = [0, 1],
      linkData = (\<lambda>r. if r = 0 then \<lparr>l_from = 0, l_to = 1, isBiDirectional = False\<rparr>
                      else \<lparr>l_from = 1, l_to = 1, isBiDirectional = False\<rparr>)\<rparr>"

text \<open>
  Two faces and a browser in which every image but \<open>b1.png\<close> loads, to an all-white
  image that covers the canvas.
\<close>

definition brokenFaces :: "face list" where
  "brokenFaces = [\<lparr>name = ''b'', images = [''b0.png'', ''b1.png'']\<rparr>,
                  \<lparr>name = ''a'', images = [''a0.png'', ''a1.png'']\<rparr>]"

definition brokenDecodes :: "string \<Rightarrow> 8 word list option" where
  "brokenDecodes src =
     (if src = ''b1.png'' then None else Some (replicate (32 * 16 * 4) 255))"

definition opaqueDraw :: "8 word list \<Rightarrow> 8 word list \<Rightarrow> 8 word list" where
  "opaqueDraw img canvas = img"

section \<open>The mapping compiler of \<open>mapping.ts\<close>\<close>

subsection \<open>The out-lists that \<open>generateMappings\<close> collects\<close>

lemma outlist_update: "outlist (AList.update k v m) k' = (if k' = k then v else outlist m k')"
  by (simp add: outlist_def update_conv')

lemma outlist_addMapping:
  "addMapping m k t = Inr m' \<Longrightarrow>
     outlist m' k' = outlist m k' @ (if k' = k then [toUpperCase t] else [])"
  by (auto simp: addMapping_def outlist_update split: option.splits if_splits)
     (simp_all add: outlist_def)

lemma distinct_addMapping:
  "addMapping m k t = Inr m' \<Longrightarrow> distinct (map fst m) \<Longrightarrow> distinct (map fst m')"
  by (auto simp: addMapping_def distinct_update split: option.splits if_splits)

lemma addMapping_keys:
  assumes "addMapping m k t = Inr m'"
  shows "fst ` set m' = insert k (fst ` set m)"
    and "k \<notin> set inheritedKeys \<or> k \<in> fst ` set m"
proof -
  from assms obtain v where "m' = AList.update k v m"
    by (cases "map_of m k") (auto simp: addMapping_def split: if_splits)
  then show "fst ` set m' = insert k (fst ` set m)"
    by (simp add: dom_update)
  show "k \<notin> set inheritedKeys \<or> k \<in> fst ` set m"
  proof (cases "map_of m k")
    case None
    with assms show ?thesis by (simp add: addMapping_def split: if_splits)
  next
    case (Some l)
    then have "(k, l) \<in> set m" by (rule map_of_SomeD)
    then show ?thesis by force
  qed
qed

lemma addMapping_own_keys:
  assumes "addMapping m k t = Inr m'" and "fst ` set m \<inter> set inheritedKeys = {}"
  shows "fst ` set m' \<inter> set inheritedKeys = {}"
  using addMapping_keys [OF assms(1)] assms(2) by auto

lemma addMapping_plain_key:
  "k \<notin> set inheritedKeys \<Longrightarrow> \<exists>m'. addMapping m k t = Inr m'"
  by (simp add: addMapping_def split: option.splits)

lemma mappingStep_cases:
  assumes "mappingStep faces cells link m = Inr m'"
  shows "(linkEntry faces cells link = [] \<and> m' = m) \<or>
         (\<exists>k t. linkEntry faces cells link = [(k, toUpperCase t)] \<and> addMapping m k t = Inr m')"
  using assms unfolding mappingStep_def linkEntry_def
  by (simp split: sum.splits option.splits if_splits) blast

lemma mappingStep_outlist:
  "mappingStep faces cells link m = Inr m' \<Longrightarrow>
     outlist m' k = outlist m k @ entriesAt k (linkEntry faces cells link)"
  by (drule mappingStep_cases) (auto simp: entriesAt_def outlist_addMapping)

lemma mappingStep_distinct:
  "mappingStep faces cells link m = Inr m' \<Longrightarrow> distinct (map fst m) \<Longrightarrow> distinct (map fst m')"
  by (drule mappingStep_cases) (auto dest: distinct_addMapping)

lemma mappingStep_own_keys:
  "mappingStep faces cells link m = Inr m' \<Longrightarrow> fst ` set m \<inter> set inheritedKeys = {} \<Longrightarrow>
     fst ` set m' \<inter> set inheritedKeys = {}"
  by (drule mappingStep_cases) (elim disjE exE conjE, simp, erule (1) addMapping_own_keys)

lemma mappingLoop_own_keys:
  "mappingLoop faces cells links m = Inr m' \<Longrightarrow> fst ` set m \<inter> set inheritedKeys = {} \<Longrightarrow>
     fst ` set m' \<inter> set inheritedKeys = {}"
proof (induction links arbitrary: m)
  case Nil
  then show ?case by simp
next
  case (Cons link links)
  from Cons.prems(1) obtain m1 where s: "mappingStep faces cells link m = Inr m1"
    and l: "mappingLoop faces cells links m1 = Inr m'"
    by (auto split: sum.splits)
  from Cons.IH [OF l mappingStep_own_keys [OF s Cons.prems(2)]] show ?case .
qed

lemma entriesAt_append: "entriesAt k (xs @ ys) = entriesAt k xs @ entriesAt k ys"
  by (simp add: entriesAt_def)

lemma mappingLoop_outlist:
  "mappingLoop faces cells links m = Inr m' \<Longrightarrow>
     outlist m' k = outlist m k @ entriesAt k (concat (map (linkEntry faces cells) links))"
proof (induction links arbitrary: m)
  case Nil
  then show ?case by (simp add: entriesAt_def)
next
  case (Cons link links)
  then obtain m1 where s: "mappingStep faces cells link m = Inr m1"
    and l: "mappingLoop faces cells links m1 = Inr m'"
    by (auto split: sum.splits)
  show ?case
    using Cons.IH [OF l] mappingStep_outlist [OF s, of k] by (simp add: entriesAt_append)
qed

lemma mappingLoop_distinct:
  "mappingLoop faces cells links m = Inr m' \<Longrightarrow> distinct (map fst m) \<Longrightarrow> distinct (map fst m')"
  by (induction links arbitrary: m) (auto split: sum.splits dest: mappingStep_distinct)

lemma generateMappings_outlist:
  "generateMappings faces cells = Inr m \<Longrightarrow>
     outlist m k = entriesAt k (concat (map (linkEntry faces cells) (linkCells cells)))"
  using mappingLoop_outlist [of faces cells "linkCells cells" "[]" m k]
  by (simp add: generateMappings_def outlist_def)

lemma generateMappings_distinct:
  "generateMappings faces cells = Inr m \<Longrightarrow> distinct (map fst m)"
  using mappingLoop_distinct [of faces cells "linkCells cells" "[]" m]
  by (simp add: generateMappings_def)

text \<open>The mappings that \<open>generateMappings\<close> returns have no own key with an inherited name.\<close>

lemma generateMappings_own_keys:
  "generateMappings faces cells = Inr m \<Longrightarrow> fst ` set m \<inter> set inheritedKeys = {}"
  using mappingLoop_own_keys [of faces cells "linkCells cells" "[]" m]
  by (simp add: generateMappings_def)

lemma set_entriesAt: "set (entriesAt k es) = {t. (k, t) \<in> set es}"
  by (force simp: entriesAt_def)

text \<open>
  \<open>generateMappings\<close> of \<open>mapping.ts\<close> never reads \<open>isBiDirectional\<close>: a flagged link adds
  its forward direction only.
\<close>

lemma generateMappings_forward_only:
  "generateMappings exFaces flaggedCells = Inr [(''a'', [''B''])]"
  by code_simp

subsection \<open>\<open>getMaxLinks\<close> and the rows\<close>

lemma getMaxLinks_foldl:
  "foldl (\<lambda>acc cur. max acc (length cur)) a vs = Max (insert a (set (map length vs)))"
proof (induction vs arbitrary: a)
  case Nil
  then show ?case by simp
next
  case (Cons v vs)
  have "Max (insert (max a (length v)) (set (map length vs)))
      = max (max a (length v)) (Max (insert 0 (set (map length vs))))"
    by (subst Max_insert [symmetric]) (simp_all add: insert_commute)
  also have "\<dots> = max a (max (length v) (Max (insert 0 (set (map length vs)))))"
    by (simp add: max.assoc)
  also have "\<dots> = max a (Max (insert (length v) (insert 0 (set (map length vs)))))"
    by simp
  also have "\<dots> = Max (insert a (insert (length v) (insert 0 (set (map length vs)))))"
    by simp
  also have "\<dots> = Max (insert a (set (map length (v # vs))))"
    by (subst (2) insert_commute, subst (1) insert_commute, subst Max_insert) (simp_all add: insert_commute)
  finally show ?case using Cons.IH [of "max a (length v)"] by simp
qed

lemma getMaxLinks_Max: "getMaxLinks m = Max (insert 0 (set (map (length \<circ> snd) m)))"
  by (simp add: getMaxLinks_def getMaxLinks_foldl)

lemma getMaxLinks_ge: "(k, v) \<in> set m \<Longrightarrow> length v \<le> getMaxLinks m"
  by (force simp: getMaxLinks_Max intro: Max_ge)

lemma outlist_le_getMaxLinks: "length (outlist m k) \<le> getMaxLinks m"
  by (auto simp: outlist_def split: option.splits dest: map_of_SomeD getMaxLinks_ge)

lemma fullMappings_ok:
  "\<forall>(k, v) \<in> set m. length v \<le> mx \<Longrightarrow>
     fullMappings m mx =
       Inr (map (\<lambda>(k, v). (k, sort v @ replicate (mx - length v) INVALID_FACE)) m)"
  by (induction m) auto

lemma fullMappings_map_of:
  "fullMappings m mx = Inr full \<Longrightarrow>
     map_of full k = map_option (\<lambda>v. sort v @ replicate (mx - length v) INVALID_FACE) (map_of m k)"
  by (induction m arbitrary: full) (auto split: if_splits sum.splits)

text \<open>A row that is emitted is the sorted out-list with its padding.\<close>

lemma fullMappings_faceRow:
  "fullMappings m mx = Inr full \<Longrightarrow> faceRow full mx f = Inr row \<Longrightarrow>
     row = sort (outlist m (name f)) @ replicate (mx - length (outlist m (name f))) INVALID_FACE"
  by (auto simp: faceRow_def fullMappings_map_of outlist_def split: option.splits if_splits)

text \<open>The row of a face is emitted when its name is not an inherited one.\<close>

lemma faceRow_own_name:
  "fullMappings m mx = Inr full \<Longrightarrow> name f \<notin> set inheritedKeys \<Longrightarrow>
     faceRow full mx f =
       Inr (sort (outlist m (name f)) @ replicate (mx - length (outlist m (name f))) INVALID_FACE)"
  by (simp add: faceRow_def fullMappings_map_of outlist_def split: option.splits)

lemma faceRows_map:
  "\<forall>f \<in> set fs. faceRow full mx f = Inr (g f) \<Longrightarrow> faceRows full mx fs = Inr (map g fs)"
  by (induction fs) simp_all

lemma faceRows_nth:
  "faceRows full mx fs = Inr rows \<Longrightarrow>
     length rows = length fs \<and> (\<forall>i < length fs. faceRow full mx (fs ! i) = Inr (rows ! i))"
proof (induction fs arbitrary: rows)
  case Nil
  then show ?case by simp
next
  case (Cons f fs)
  from Cons.prems obtain row rest where row: "faceRow full mx f = Inr row"
    and rest: "faceRows full mx fs = Inr rest" and rows: "rows = row # rest"
    by (auto split: sum.splits)
  from Cons.IH [OF rest] row rows show ?case
    by (auto simp: nth_Cons')
qed

lemma fileRows_getMaxLinks:
  assumes "ownNames faces"
  shows "fileRows faces m (getMaxLinks m) =
     Inr (map (\<lambda>f. sort (outlist m (name f))
                 @ replicate (getMaxLinks m - length (outlist m (name f))) INVALID_FACE) faces)"
proof -
  let ?full = "map (\<lambda>(k, v). (k, sort v @ replicate (getMaxLinks m - length v) INVALID_FACE)) m"
  have "\<forall>(k, v) \<in> set m. length v \<le> getMaxLinks m"
    by (auto dest: getMaxLinks_ge)
  then have full: "fullMappings m (getMaxLinks m) = Inr ?full"
    by (rule fullMappings_ok)
  have "\<forall>f \<in> set faces. name f \<notin> set inheritedKeys"
    using assms by (simp add: ownNames_def list_all_iff)
  then have "faceRows ?full (getMaxLinks m) faces =
     Inr (map (\<lambda>f. sort (outlist m (name f))
                 @ replicate (getMaxLinks m - length (outlist m (name f))) INVALID_FACE) faces)"
    by (intro faceRows_map ballI faceRow_own_name [OF full]) simp
  with full show ?thesis
    by (simp add: fileRows_def)
qed

lemma outlist_entry: "distinct (map fst m) \<Longrightarrow> (k, v) \<in> set m \<Longrightarrow> outlist m k = v"
  by (simp add: outlist_def)

lemma lengths_split:
  assumes "distinct (map fst m)"
  shows "insert 0 (set (map (length \<circ> snd) m)) =
         insert 0 (set (map (\<lambda>f. length (outlist m (name f))) faces)
                   \<union> set (map (length \<circ> snd) (filter (\<lambda>(k, v). k \<notin> set (map name faces)) m)))"
    (is "?L = ?R")
proof (intro equalityI subsetI)
  fix n assume "n \<in> ?L"
  then consider "n = 0" | k v where "(k, v) \<in> set m" "n = length v" by auto
  then show "n \<in> ?R"
  proof cases
    case 1 then show ?thesis by simp
  next
    case 2
    show ?thesis
    proof (cases "k \<in> set (map name faces)")
      case True
      then obtain f where "f \<in> set faces" "name f = k" by auto
      moreover have "outlist m k = v" using assms 2 by (simp add: outlist_entry)
      ultimately show ?thesis using 2 by force
    next
      case False
      with 2 show ?thesis by force
    qed
  qed
next
  fix n assume "n \<in> ?R"
  then consider "n = 0" | f where "f \<in> set faces" "n = length (outlist m (name f))"
    | k v where "(k, v) \<in> set m" "n = length v" by auto
  then show "n \<in> ?L"
  proof cases
    case 1 then show ?thesis by simp
  next
    case 2
    show ?thesis
    proof (cases "map_of m (name f)")
      case None
      with 2 show ?thesis by (simp add: outlist_def)
    next
      case (Some v)
      then have "(name f, v) \<in> set m" by (rule map_of_SomeD)
      moreover have "n = length v" using 2 Some by (simp add: outlist_def)
      ultimately show ?thesis by force
    qed
  next
    case 3 then show ?thesis by force
  qed
qed

subsection \<open>Claim C2: the shape of the table\<close>

text \<open>
  Claim C2, as the code has it. When \<open>generateMappings\<close> returns and no face is named like
  a property that every object inherits, the table has one row per face, in the order of
  the face list; the row of a face is its out-list, sorted, followed by the sentinel
  \<open>INVALID_FACE\<close> up to \<open>maxLinks\<close> tokens, so that a face without out-links has a row of
  sentinels only. \<open>maxLinks\<close> is the greatest length of an out-list over the faces and
  over the link sources that are not faces (0 without links).
\<close>

theorem C2_table_shape:
  assumes "generateMappings faces cells = Inr m" and "ownNames faces"
  shows "\<exists>rows. fileRows faces m (getMaxLinks m) = Inr rows
           \<and> length rows = length faces
           \<and> list_all (\<lambda>row. length row = getMaxLinks m) rows
           \<and> rows = map (\<lambda>f. sort (outlist m (name f))
                               @ replicate (getMaxLinks m - length (outlist m (name f))) INVALID_FACE)
                       faces
           \<and> getMaxLinks m =
               Max (insert 0 (set (map (\<lambda>f. length (outlist m (name f))) faces)
                     \<union> set (map (length \<circ> snd)
                             (filter (\<lambda>(k, v). k \<notin> set (map name faces)) m))))"
proof -
  let ?row = "\<lambda>f. sort (outlist m (name f))
                  @ replicate (getMaxLinks m - length (outlist m (name f))) INVALID_FACE"
  have rows: "fileRows faces m (getMaxLinks m) = Inr (map ?row faces)"
    using assms(2) by (rule fileRows_getMaxLinks)
  have len: "list_all (\<lambda>row. length row = getMaxLinks m) (map ?row faces)"
    by (simp add: list_all_iff outlist_le_getMaxLinks)
  have "distinct (map fst m)"
    using assms(1) by (rule generateMappings_distinct)
  then have mx: "getMaxLinks m =
      Max (insert 0 (set (map (\<lambda>f. length (outlist m (name f))) faces)
            \<union> set (map (length \<circ> snd) (filter (\<lambda>(k, v). k \<notin> set (map name faces)) m))))"
    by (simp only: getMaxLinks_Max lengths_split [of m faces])
  show ?thesis
    using rows len mx by simp
qed

theorem C2_table_shape_witness:
  "generateMappings exFaces exCells = Inr exMappings
   \<and> ownNames exFaces
   \<and> fileRows exFaces exMappings (getMaxLinks exMappings)
       = Inr [[''B'', ''C''], [''A'', ''INVALID_FACE''], [''INVALID_FACE'', ''INVALID_FACE'']]
   \<and> getMaxLinks exMappings = 2"
proof -
  have h: "generateMappings exFaces exCells = Inr exMappings"
    by code_simp
  have n: "ownNames exFaces"
    by code_simp
  have r: "fileRows exFaces exMappings (getMaxLinks exMappings)
       = Inr [[''B'', ''C''], [''A'', ''INVALID_FACE''], [''INVALID_FACE'', ''INVALID_FACE'']]"
    by code_simp
  have g: "getMaxLinks exMappings = 2"
    by code_simp
  show ?thesis
    using C2_table_shape [OF h n] h n r g by simp
qed

text \<open>
  A face with an inherited name has no row: reading its entry gives a function, on which
  \<open>join\<close> throws, and a link that leaves it ends \<open>generateMappings\<close> in the same way.
\<close>

lemma inherited_name_raises:
  "generateMappings inheritedFaces [] = Inr []"
  "fileRows inheritedFaces [] (getMaxLinks []) = Inl TypeError"
  "generateConfigFile inheritedFaces [] = Inl TypeError"
  "generateMappings inheritedFaces inheritedCells = Inl TypeError"
  by code_simp+

text \<open>
  The claim as written takes the maximum over the faces only. A link from a node without
  a face makes every row one token wide, while no face has an out-link.
\<close>

theorem C2_counterexample:
  "generateMappings ghostFaces ghostCells = Inr [(''ghost'', [''A''])]
   \<and> fileRows ghostFaces [(''ghost'', [''A''])] (getMaxLinks [(''ghost'', [''A''])])
       = Inr [[''INVALID_FACE'']]
   \<and> Max (insert 0 (set (map (\<lambda>f. length (outlist [(''ghost'', [''A''])] (name f))) ghostFaces))) = 0"
  by code_simp

subsection \<open>Claim C5: tokens sorted before the padding\<close>

text \<open>
  Claim C5, for \<open>mapping.ts\<close>. Every row of \<open>generateFileMappings\<close> is the face's collected
  tokens in ascending order, a permutation of its out-list, followed by the sentinel
  padding.
\<close>

theorem C5_sorted_before_padding:
  assumes "fileRows faces m mx = Inr rows" and "i < length faces"
  shows "\<exists>tokens. rows ! i = tokens @ replicate (mx - length tokens) INVALID_FACE
           \<and> sorted tokens
           \<and> mset tokens = mset (outlist m (name (faces ! i)))"
proof -
  from assms(1) obtain full where full: "fullMappings m mx = Inr full"
    and rows: "faceRows full mx faces = Inr rows"
    by (auto simp: fileRows_def split: sum.splits)
  let ?tokens = "sort (outlist m (name (faces ! i)))"
  have "faceRow full mx (faces ! i) = Inr (rows ! i)"
    using faceRows_nth [OF rows] assms(2) by simp
  then have "rows ! i = ?tokens @ replicate (mx - length ?tokens) INVALID_FACE"
    using fullMappings_faceRow [OF full] by simp
  then show ?thesis
    by (intro exI [of _ ?tokens]) simp
qed

theorem C5_sorted_before_padding_witness:
  "fileRows exFaces exMappings 2
     = Inr [[''B'', ''C''], [''A'', ''INVALID_FACE''], [''INVALID_FACE'', ''INVALID_FACE'']]
   \<and> (0::nat) < length exFaces
   \<and> outlist exMappings (name (exFaces ! 0)) = [''C'', ''B'']
   \<and> sorted [''B'', ''C'']"
proof -
  have r: "fileRows exFaces exMappings 2
     = Inr [[''B'', ''C''], [''A'', ''INVALID_FACE''], [''INVALID_FACE'', ''INVALID_FACE'']]"
    by code_simp
  have i: "(0::nat) < length exFaces"
    by code_simp
  have o: "outlist exMappings (name (exFaces ! 0)) = [''C'', ''B'']"
    by code_simp
  have s: "sorted [''B'', ''C'']"
    by code_simp
  show ?thesis
    using C5_sorted_before_padding [OF r i] r i o s by simp
qed

text \<open>
  \<open>generateFileMappings\<close> of \<open>mapper.js\<close> pads without sorting: the row of \<open>a\<close> keeps the
  order in which its links were visited.
\<close>

theorem C5_counterexample:
  "generateMappings_js exFaces_js pairDiagram = Inr [(0, [''C'', ''B''])]
   \<and> fileRows_js exFaces_js [(0, [''C'', ''B''])] (getMaxLinks_js [(0, [''C'', ''B''])])
        = [[''C'', ''B''], [''INVALID_FACE'', ''INVALID_FACE''],
           [''INVALID_FACE'', ''INVALID_FACE'']]
   \<and> \<not> sorted [''C'', ''B'']"
  by code_simp

subsection \<open>Claim C6: the round trip\<close>

lemma findTarget_Some: "b \<in> set (map name faces) \<Longrightarrow> findTarget faces (Some b) = Some b"
  by (induction faces) (auto simp: findTarget_def)

lemma linkResolved_names:
  assumes "linkResolved faces cells link"
  obtains a b where "getElementNameById cells (cell_source link) = Inr (Some a)"
    and "getElementNameById cells (cell_target link) = Inr (Some b)"
    and "a \<in> set (map name faces)" and "b \<in> set (map name faces)"
    and "b \<noteq> []" and "toUpperCase b \<noteq> INVALID_FACE"
    and "\<not> cell_isBiDirectional link"
proof (cases "getElementNameById cells (cell_source link)")
  case (Inl e)
  with assms show ?thesis by (simp add: linkResolved_def)
next
  case src: (Inr s)
  show ?thesis
  proof (cases "getElementNameById cells (cell_target link)")
    case (Inl e)
    with assms src show ?thesis by (simp add: linkResolved_def split: option.splits)
  next
    case tgt: (Inr t)
    from assms src tgt obtain a b where "s = Some a" "t = Some b"
      by (cases s; cases t) (simp_all add: linkResolved_def)
    with assms src tgt that show ?thesis
      by (simp add: linkResolved_def)
  qed
qed

lemma linkResolved_entry:
  assumes "linkResolved faces cells link"
  shows "linkEntry faces cells link = edgeOf cells link"
    and "ownNames faces \<Longrightarrow> \<exists>m'. mappingStep faces cells link m = Inr m'"
    and "\<forall>(k, t) \<in> set (linkEntry faces cells link).
           k \<in> set (map name faces) \<and> t \<noteq> INVALID_FACE"
proof -
  from assms obtain a b where ab: "getElementNameById cells (cell_source link) = Inr (Some a)"
    "getElementNameById cells (cell_target link) = Inr (Some b)"
    "a \<in> set (map name faces)" "b \<in> set (map name faces)"
    "b \<noteq> []" "toUpperCase b \<noteq> INVALID_FACE" "\<not> cell_isBiDirectional link"
    by (rule linkResolved_names)
  have t: "findTarget faces (Some b) = Some b"
    using ab(4) by (rule findTarget_Some)
  show "linkEntry faces cells link = edgeOf cells link"
    using ab t by (simp add: linkEntry_def edgeOf_def propertyKey_def)
  show "\<exists>m'. mappingStep faces cells link m = Inr m'" if "ownNames faces"
  proof -
    have "a \<notin> set inheritedKeys"
      using that ab(3) by (auto simp: ownNames_def list_all_iff)
    then show ?thesis
      using ab t addMapping_plain_key [of a m b]
      by (simp add: mappingStep_def propertyKey_def)
  qed
  show "\<forall>(k, t) \<in> set (linkEntry faces cells link).
           k \<in> set (map name faces) \<and> t \<noteq> INVALID_FACE"
    using ab t by (simp add: linkEntry_def propertyKey_def)
qed

lemma mappingLoop_resolved:
  "list_all (linkResolved faces cells) links \<Longrightarrow> ownNames faces \<Longrightarrow>
     \<exists>m'. mappingLoop faces cells links m = Inr m'"
proof (induction links arbitrary: m)
  case Nil
  then show ?case by simp
next
  case (Cons link links)
  then obtain m1 where "mappingStep faces cells link m = Inr m1"
    using linkResolved_entry(2) [of faces cells link m] by auto
  with Cons show ?case by simp
qed

lemma zip_map_same: "zip xs (map g xs) = map (\<lambda>x. (x, g x)) xs"
  by (induction xs) simp_all

lemma rederive_rows:
  "rederive faces (map g faces) =
     (\<Union>f \<in> set faces. Pair (name f) ` {t \<in> set (g f). t \<noteq> INVALID_FACE})"
  by (auto simp: rederive_def zip_map_same)

text \<open>
  Claim C6, for the faces none of which has an inherited name and the graphs in which no
  link is marked bidirectional and every link joins two cells named like faces (the
  target's name non-empty and not spelled \<open>INVALID_FACE\<close>): compilation succeeds, and
  the edges re-derived from the emitted rows, sentinels dropped, are the connectivity of
  the graph, cyclic or not.
\<close>

theorem C6_round_trip:
  assumes "list_all (linkResolved faces cells) (linkCells cells)" and "ownNames faces"
  shows "\<exists>m rows. generateMappings faces cells = Inr m
           \<and> fileRows faces m (getMaxLinks m) = Inr rows
           \<and> rederive faces rows = connectivity cells"
proof -
  let ?es = "concat (map (linkEntry faces cells) (linkCells cells))"
  from mappingLoop_resolved [OF assms] obtain m where m: "generateMappings faces cells = Inr m"
    by (auto simp: generateMappings_def)
  let ?row = "\<lambda>f. sort (outlist m (name f))
                  @ replicate (getMaxLinks m - length (outlist m (name f))) INVALID_FACE"
  have rows: "fileRows faces m (getMaxLinks m) = Inr (map ?row faces)"
    using assms(2) by (rule fileRows_getMaxLinks)
  have resolved: "\<forall>link \<in> set (linkCells cells). linkResolved faces cells link"
    using assms(1) by (simp add: list_all_iff)
  have es: "?es = concat (map (edgeOf cells) (linkCells cells))"
    using resolved by (auto intro!: arg_cong [where f = concat] simp: linkResolved_entry(1))
  have good: "\<forall>(k, t) \<in> set ?es. k \<in> set (map name faces) \<and> t \<noteq> INVALID_FACE"
    using resolved linkResolved_entry(3) by fastforce
  have out: "set (outlist m k) = {t. (k, t) \<in> set ?es}" for k
    by (simp add: generateMappings_outlist [OF m] set_entriesAt)
  have "rederive faces (map ?row faces) = set ?es"
  proof (intro equalityI subsetI)
    fix e assume "e \<in> rederive faces (map ?row faces)"
    then obtain f t where "f \<in> set faces" "e = (name f, t)" "t \<in> set (?row f)"
      "t \<noteq> INVALID_FACE"
      by (auto simp: rederive_rows)
    then show "e \<in> set ?es" using out [of "name f"] by auto
  next
    fix e assume e: "e \<in> set ?es"
    obtain k t where kt: "e = (k, t)" by (cases e)
    with e good have "k \<in> set (map name faces)" "t \<noteq> INVALID_FACE" by auto
    then obtain f where f: "f \<in> set faces" "name f = k" by auto
    have "t \<in> set (outlist m (name f))" using e kt f out [of k] by simp
    then have "t \<in> set (?row f)" by simp
    with f kt \<open>t \<noteq> INVALID_FACE\<close> show "e \<in> rederive faces (map ?row faces)"
      unfolding rederive_rows by blast
  qed
  with m rows es show ?thesis
    by (simp add: connectivity_def)
qed

theorem C6_round_trip_witness:
  "list_all (linkResolved exFaces cycleCells) (linkCells cycleCells)
   \<and> ownNames exFaces
   \<and> generateMappings exFaces cycleCells = Inr cycleMappings
   \<and> fileRows exFaces cycleMappings (getMaxLinks cycleMappings) = Inr [[''B''], [''C''], [''A'']]
   \<and> rederive exFaces [[''B''], [''C''], [''A'']] = connectivity cycleCells"
proof -
  have h: "list_all (linkResolved exFaces cycleCells) (linkCells cycleCells)"
    by code_simp
  have n: "ownNames exFaces"
    by code_simp
  have m: "generateMappings exFaces cycleCells = Inr cycleMappings"
    by code_simp
  have r: "fileRows exFaces cycleMappings (getMaxLinks cycleMappings)
      = Inr [[''B''], [''C''], [''A'']]"
    by code_simp
  show ?thesis
    using C6_round_trip [OF h n] h n m r by simp
qed

text \<open>
  Without that condition the round trip loses edges: the link \<open>a \<rightarrow> b\<close> is dropped when no
  face is called \<open>b\<close>.
\<close>

theorem C6_counterexample:
  "generateMappings ghostFaces unmatchedCells = Inr []
   \<and> fileRows ghostFaces [] (getMaxLinks []) = Inr [[]]
   \<and> rederive ghostFaces [[]] = {}
   \<and> (''a'', ''B'') \<in> connectivity unmatchedCells"
  by code_simp

text \<open>
  A link marked bidirectional stands for two edges, and \<open>generateMappings\<close> of
  \<open>mapping.ts\<close> emits the forward one only: the round trip loses the reverse edge.
\<close>

lemma round_trip_flagged_link:
  "generateMappings exFaces flaggedCells = Inr [(''a'', [''B''])]"
  "fileRows exFaces [(''a'', [''B''])] (getMaxLinks [(''a'', [''B''])])
     = Inr [[''B''], [''INVALID_FACE''], [''INVALID_FACE'']]"
  "(''b'', ''A'') \<in> connectivity flaggedCells"
  "(''b'', ''A'') \<notin> rederive exFaces [[''B''], [''INVALID_FACE''], [''INVALID_FACE'']]"
  by code_simp+

subsection \<open>Claim C8: links that do not resolve\<close>

text \<open>
  A link whose target cell is found and names no face leaves the mappings as they are.
\<close>

lemma mappingStep_unmatched_target:
  "getElementNameById cells (cell_source link) = Inr s \<Longrightarrow>
   getElementNameById cells (cell_target link) = Inr t \<Longrightarrow>
   findTarget faces t = None \<Longrightarrow> mappingStep faces cells link m = Inr m"
  by (simp add: mappingStep_def)

text \<open>
  Claim C8 at a link whose target has no identifier: \<open>getElementNameById\<close> reads \<open>.name\<close>
  of \<open>undefined\<close>, and the \<open>TypeError\<close> ends \<open>generateMappings\<close> and \<open>generateConfigFile\<close>.
\<close>

theorem C8_dangling_link_raises:
  "generateMappings ghostFaces danglingCells = Inl TypeError
   \<and> generateConfigFile ghostFaces danglingCells = Inl TypeError"
  by code_simp

section \<open>The mapping compiler of \<open>mapper.js\<close>\<close>






text \<open>
  A link that was visited without a \<open>TypeError\<close> has a face at every index it reads.
\<close>






text \<open>
  When one link only has entries that satisfy \<open>P\<close>, the entries of the diagram that
  satisfy \<open>P\<close> are those of that link.
\<close>





subsection \<open>Claim C1: both directions of a bidirectional link\<close>




subsection \<open>Claim C9: export without faces\<close>

text \<open>
  Claim C9 at the empty face list: \<open>onClickExport\<close> downloads a config file for zero
  faces; it alerts only while \<open>facesArray\<close> is \<open>undefined\<close>. The guard of
  \<open>onChangeImport\<close> does hold for the empty list.
\<close>

theorem C9_empty_face_list_exports:
  "onClickExport (Some []) emptyDiagram
     = Inr (Download ''facesConfig.h''
         (''#define NUMBER_FACES 0'' @ [CHR 0x0A] @ ''#define INVALID_FACE -1'' @ [CHR 0x0A]
          @ [CHR 0x0A] @ ''const int8_t nextFaces[][0] = {'' @ [CHR 0x0A] @ ''};'' @ [CHR 0x0A]))
   \<and> onClickExport None emptyDiagram = Inr (Alert ''No faces to export'')
   \<and> importGuard (Some [])"
  by code_simp

section \<open>The \<open>LinkDrawn\<close> listener\<close>

lemma setDataProperty_simps:
  "l_from (linkData (setDataProperty d r v) x) = l_from (linkData d x)"
  "l_to (linkData (setDataProperty d r v) x) = l_to (linkData d x)"
  "isBiDirectional (linkData (setDataProperty d r v) x)
     = (if x = r then v else isBiDirectional (linkData d x))"
  "linkParts (setDataProperty d r v) = linkParts d"
  "nodeKeys (setDataProperty d r v) = nodeKeys d"
  by (simp_all add: setDataProperty_def)

lemma removePart_simps:
  "linkData (removePart d r) = linkData d"
  "linkParts (removePart d r) = removeAll r (linkParts d)"
  "nodeKeys (removePart d r) = nodeKeys d"
  by (simp_all add: removePart_def)

lemma linkDrawnLoop_ends:
  "l_from (linkData (linkDrawnLoop s items d) x) = l_from (linkData d x)
   \<and> l_to (linkData (linkDrawnLoop s items d) x) = l_to (linkData d x)"
  by (induction items arbitrary: d) (simp_all add: setDataProperty_simps removePart_simps)

lemma linkDrawnLoop_parts:
  "linkParts (linkDrawnLoop s items d) =
     (if \<exists>item \<in> set items. l_to (linkData d item) = l_from (linkData d s)
      then removeAll s (linkParts d) else linkParts d)"
  by (induction items arbitrary: d) (simp_all add: setDataProperty_simps removePart_simps)

lemma linkDrawnLoop_flag:
  "isBiDirectional (linkData (linkDrawnLoop s items d) x) =
     ((x \<in> set items \<and> l_to (linkData d x) = l_from (linkData d s))
      \<or> isBiDirectional (linkData d x))"
  by (induction items arbitrary: d) (auto simp: setDataProperty_simps removePart_simps)

lemma filter_single:
  "distinct xs \<Longrightarrow> x \<in> set xs \<Longrightarrow> P x \<Longrightarrow> (\<forall>y \<in> set xs. y \<noteq> x \<longrightarrow> \<not> P y) \<Longrightarrow>
     filter P xs = [x]"
proof (induction xs)
  case Nil
  then show ?case by simp
next
  case (Cons a xs)
  show ?case
  proof (cases "a = x")
    case True
    with Cons.prems have "\<forall>y \<in> set xs. \<not> P y" by auto
    then have "filter P xs = []" by (simp add: filter_empty_conv)
    with True Cons.prems show ?thesis by simp
  next
    case False
    with Cons show ?thesis by auto
  qed
qed

subsection \<open>Claim C3: a drawn reverse link is merged\<close>

text \<open>
  Claim C3. The diagram without the new link has at most one link per pair of nodes, and
  one of its links, \<open>p\<close>, is the reverse of the new link. Then the listener removes the
  new link and sets the flag of \<open>p\<close>; \<open>p\<close> is the single link between the two nodes, and
  the diagram still has at most one link per pair.
\<close>

theorem C3_reverse_link_merged:
  assumes inv: "onePerPair (removePart d subject)"
    and p: "p \<in> set (linkParts d)" "p \<noteq> subject"
    and rev: "l_from (linkData d p) = l_to (linkData d subject)"
      "l_to (linkData d p) = l_from (linkData d subject)"
    and node: "l_to (linkData d subject) \<in> set (nodeKeys d)"
  shows "\<exists>d'. onLinkDrawn d subject = Inr d'
           \<and> linkParts d' = removeAll subject (linkParts d)
           \<and> isBiDirectional (linkData d' p)
           \<and> filter (\<lambda>r. endpoints (linkData d' r) = endpoints (linkData d subject))
                (linkParts d') = [p]
           \<and> onePerPair d'"
proof -
  let ?d1 = "setDataProperty d subject False"
  let ?items = "findLinksOutOf ?d1 (l_to (linkData ?d1 subject))"
  let ?d' = "linkDrawnLoop subject ?items ?d1"
  have item: "p \<in> set ?items"
    using p rev by (simp add: findLinksOutOf_def setDataProperty_simps)
  have match: "l_to (linkData ?d1 p) = l_from (linkData ?d1 subject)"
    using rev by (simp add: setDataProperty_simps)
  have run: "onLinkDrawn d subject = Inr ?d'"
    using node by (simp add: onLinkDrawn_def Let_def setDataProperty_simps)
  have parts: "linkParts ?d' = removeAll subject (linkParts d)"
    using item match by (auto simp: linkDrawnLoop_parts setDataProperty_simps)
  have flag: "isBiDirectional (linkData ?d' p)"
    using item match by (simp add: linkDrawnLoop_flag)
  have ends: "endpoints (linkData ?d' r) = endpoints (linkData d r)" for r
    by (simp add: endpoints_def linkDrawnLoop_ends setDataProperty_simps)
  have inv': "onePerPair ?d'"
    using inv by (simp add: onePerPair_def parts ends removePart_simps)
  have pin: "p \<in> set (linkParts ?d')"
    using p by (simp add: parts)
  have same: "endpoints (linkData d p) = endpoints (linkData d subject)"
    using rev by (auto simp: endpoints_def)
  have "filter (\<lambda>r. endpoints (linkData ?d' r) = endpoints (linkData d subject)) (linkParts ?d')
      = [p]"
  proof (rule filter_single)
    show "distinct (linkParts ?d')" using inv' by (simp add: onePerPair_def)
    show "p \<in> set (linkParts ?d')" by (rule pin)
    show "endpoints (linkData ?d' p) = endpoints (linkData d subject)"
      by (simp add: ends same)
    show "\<forall>y \<in> set (linkParts ?d'). y \<noteq> p \<longrightarrow>
        endpoints (linkData ?d' y) \<noteq> endpoints (linkData d subject)"
      using inv' pin by (auto simp: onePerPair_def ends same [symmetric])
  qed
  with run parts flag inv' show ?thesis by simp
qed

theorem C3_reverse_link_merged_witness:
  "onePerPair (removePart drawnDiagram 1)
   \<and> l_from (linkData drawnDiagram 0) = l_to (linkData drawnDiagram 1)
   \<and> l_to (linkData drawnDiagram 0) = l_from (linkData drawnDiagram 1)
   \<and> (case onLinkDrawn drawnDiagram 1 of
         Inl e \<Rightarrow> False
       | Inr d' \<Rightarrow> linkParts d' = [0] \<and> isBiDirectional (linkData d' 0) \<and> onePerPair d')"
proof -
  have inv: "onePerPair (removePart drawnDiagram 1)" by code_simp
  have p: "0 \<in> set (linkParts drawnDiagram)" "(0::nat) \<noteq> 1" by code_simp+
  have rev: "l_from (linkData drawnDiagram 0) = l_to (linkData drawnDiagram 1)"
    "l_to (linkData drawnDiagram 0) = l_from (linkData drawnDiagram 1)" by code_simp+
  have node: "l_to (linkData drawnDiagram 1) \<in> set (nodeKeys drawnDiagram)" by code_simp
  have parts: "removeAll 1 (linkParts drawnDiagram) = [0]" by code_simp
  from C3_reverse_link_merged [OF inv p rev node] obtain d' where
    "onLinkDrawn drawnDiagram 1 = Inr d'" "linkParts d' = removeAll 1 (linkParts drawnDiagram)"
    "isBiDirectional (linkData d' 0)" "onePerPair d'"
    by blast
  then show ?thesis
    using inv rev parts by simp
qed

subsection \<open>Claim C10: a drawn self-loop\<close>

text \<open>
  Claim C10. A new link from a node to itself is among the links leaving its target node
  and matches itself: the listener removes it from the diagram and sets its flag.
\<close>

theorem C10_self_loop_removed:
  assumes "subject \<in> set (linkParts d)"
    and "l_from (linkData d subject) = l_to (linkData d subject)"
    and "l_to (linkData d subject) \<in> set (nodeKeys d)"
  shows "\<exists>d'. onLinkDrawn d subject = Inr d'
           \<and> subject \<notin> set (linkParts d')
           \<and> isBiDirectional (linkData d' subject)"
proof -
  let ?d1 = "setDataProperty d subject False"
  let ?items = "findLinksOutOf ?d1 (l_to (linkData ?d1 subject))"
  have item: "subject \<in> set ?items"
    using assms(1,2) by (simp add: findLinksOutOf_def setDataProperty_simps)
  have match: "l_to (linkData ?d1 subject) = l_from (linkData ?d1 subject)"
    using assms(2) by (simp add: setDataProperty_simps)
  have run: "onLinkDrawn d subject = Inr (linkDrawnLoop subject ?items ?d1)"
    using assms(3) by (simp add: onLinkDrawn_def Let_def setDataProperty_simps)
  have "subject \<notin> set (linkParts (linkDrawnLoop subject ?items ?d1))"
    using item match by (auto simp: linkDrawnLoop_parts)
  moreover have "isBiDirectional (linkData (linkDrawnLoop subject ?items ?d1) subject)"
    using item match by (simp add: linkDrawnLoop_flag)
  ultimately show ?thesis
    using run by simp
qed

theorem C10_self_loop_removed_witness:
  "1 \<in> set (linkParts loopDiagram)
   \<and> l_from (linkData loopDiagram 1) = l_to (linkData loopDiagram 1)
   \<and> (case onLinkDrawn loopDiagram 1 of
         Inl e \<Rightarrow> False
       | Inr d' \<Rightarrow> linkParts d' = [0] \<and> isBiDirectional (linkData d' 1))"
proof -
  have h1: "1 \<in> set (linkParts loopDiagram)" by code_simp
  have h2: "l_from (linkData loopDiagram 1) = l_to (linkData loopDiagram 1)" by code_simp
  have h3: "l_to (linkData loopDiagram 1) \<in> set (nodeKeys loopDiagram)" by code_simp
  have c: "case onLinkDrawn loopDiagram 1 of
         Inl e \<Rightarrow> False
       | Inr d' \<Rightarrow> linkParts d' = [0] \<and> isBiDirectional (linkData d' 1)"
    by code_simp
  show ?thesis
    using C10_self_loop_removed [OF h1 h2 h3] h1 h2 c by simp
qed

section \<open>The bitmap packer\<close>

lemma nth_concat_replicate4:
  "i < n \<Longrightarrow> concat (replicate n [r, g, b, a]) ! (i * 4) = r"
proof (induction n arbitrary: i)
  case 0
  then show ?case by simp
next
  case (Suc n)
  show ?case
  proof (cases i)
    case 0
    then show ?thesis by simp
  next
    case (Suc j)
    with Suc.prems have "j < n" by simp
    from Suc.IH [OF this] Suc show ?thesis
      by (simp add: nth_append nth_Cons')
  qed
qed

lemma filter_less_upt: "n \<le> m \<Longrightarrow> filter (\<lambda>i. i < n) [0..<m] = [0..<n]"
  by (induction m) (auto simp: le_Suc_eq)

lemma redChannelData_uniform:
  "redChannelData (concat (replicate n [r, g, b, a]))
     = replicate n (if r \<noteq> 0 then 0 else 1)"
proof -
  let ?p = "concat (replicate n [r, g, b, a])"
  have len: "length ?p = 4 * n"
    by (induction n) simp_all
  have "List.map_filter (\<lambda>i. if i * 4 < length ?p then Some (?p ! (i * 4)) else None)
          [0..<length ?p]
      = map (\<lambda>i. ?p ! (i * 4)) (filter (\<lambda>i. i < n) [0..<4 * n])"
    by (simp add: List.map_filter_def len comp_def cong: map_cong)
  also have "\<dots> = map (\<lambda>i. ?p ! (i * 4)) [0..<n]"
    by (simp add: filter_less_upt)
  also have "\<dots> = map (\<lambda>i. r) [0..<n]"
    by (rule map_cong) (simp_all add: nth_concat_replicate4)
  finally show ?thesis
    by (simp add: redChannelData_def map_replicate_const)
qed

lemma binaryStringsFrom_uniform:
  "k \<le> m \<Longrightarrow>
     binaryStringsFrom (8 * k) (replicate (8 * m) v)
       = replicate (m - k) (''0b'' @ concat (replicate 8 (string_of_nat v)))"
proof (induction "m - k" arbitrary: k)
  case 0
  then show ?case
    by (subst binaryStringsFrom.simps) simp
next
  case (Suc d)
  then have k: "k < m" and d: "d = m - Suc k" and le: "Suc k \<le> m" by simp_all
  have step: "binaryStringsFrom (8 * k) (replicate (8 * m) v)
      = (''0b'' @ concat (map string_of_nat (take 8 (drop (8 * k) (replicate (8 * m) v)))))
        # binaryStringsFrom (8 * Suc k) (replicate (8 * m) v)"
    using k by (subst binaryStringsFrom.simps) (simp add: add.commute)
  have slice: "take 8 (drop (8 * k) (replicate (8 * m) v)) = replicate 8 v"
    using k by (simp add: min_def)
  have "m - k = Suc (m - Suc k)" using k by simp
  then show ?case
    using Suc.hyps(1) [OF d le] step slice by (simp add: map_replicate)
qed

lemma generateBinaryStrings_uniform:
  "generateBinaryStrings (concat (replicate (8 * m) [r, g, b, a]))
     = replicate m (''0b'' @ concat (replicate 8 (string_of_nat (if r \<noteq> 0 then 0 else 1))))"
  using binaryStringsFrom_uniform [of 0 m "if r \<noteq> 0 then 0 else 1"]
  by (simp add: generateBinaryStrings_def redChannelData_uniform)

lemma literal_zero: "string_of_nat 0 = ''0''" "replicate 8 CHR ''0'' = ''00000000''"
  by code_simp+

lemma literal_one: "string_of_nat (Suc 0) = ''1''" "replicate 8 CHR ''1'' = ''11111111''"
  by code_simp+

text \<open>
  An all-white layer packs to 64 literals \<open>0b00000000\<close>, an all-black one to 64 literals
  \<open>0b11111111\<close>.
\<close>

lemma generateBinaryStrings_white:
  "generateBinaryStrings (concat (replicate (32 * 16) [255, 255, 255, 255]))
     = replicate 64 ''0b00000000''"
  using generateBinaryStrings_uniform [of 64 255 255 255 255]
  by (simp add: literal_zero)

lemma generateBinaryStrings_black:
  "generateBinaryStrings (concat (replicate (32 * 16) [0, 0, 0, 255]))
     = replicate 64 ''0b11111111''"
  using generateBinaryStrings_uniform [of 64 0 0 0 255]
  by (simp add: literal_one)

subsection \<open>Claim C4: the threshold\<close>

text \<open>
  Claim C4 at a mid-grey layer (red sample 128): the packer tests the sample for
  truthiness and emits 64 literals \<open>0b00000000\<close>, while the editor's decoder, which
  compares with 255, takes the same pixel as set.
\<close>

theorem C4_grey_pixels_unset:
  "generateBinaryStrings (concat (replicate (32 * 16) [128, 128, 128, 255]))
     = replicate 64 ''0b00000000''
   \<and> editorPixel 128 = 1"
proof -
  have "generateBinaryStrings (concat (replicate (32 * 16) [128, 128, 128, 255]))
     = replicate 64 ''0b00000000''"
    using generateBinaryStrings_uniform [of 64 128 128 128 255]
    by (simp add: literal_zero)
  moreover have "editorPixel 128 = 1"
    by (simp add: editorPixel_def)
  ultimately show ?thesis by simp
qed

subsection \<open>Claim C7: an image that fails to load\<close>

lemma layersLoop_error:
  "layersLoop decodes drawImage srcs canvas faceData = Inl e \<Longrightarrow>
     \<exists>s. decodes s = None \<and> e = ImageLoadError (''Failed to load image: '' @ s)"
  by (induction srcs arbitrary: canvas faceData)
     (auto simp: loadImage_def Let_def split: sum.splits option.splits)

lemma layersLoop_fails:
  "src \<in> set srcs \<Longrightarrow> decodes src = None \<Longrightarrow>
     \<exists>e. layersLoop decodes drawImage srcs canvas faceData = Inl e"
proof (induction srcs arbitrary: canvas faceData)
  case Nil
  then show ?case by simp
next
  case (Cons x srcs)
  show ?case
  proof (cases "decodes x")
    case None
    then show ?thesis by (simp add: loadImage_def)
  next
    case (Some img)
    with Cons.prems have "src \<in> set srcs" by auto
    from Cons.IH [OF this Cons.prems(2)] Some show ?thesis
      by (simp add: loadImage_def Let_def)
  qed
qed

lemma facesLoop_error:
  "facesLoop decodes drawImage faces ks canvas outputData = Inl e \<Longrightarrow>
     \<exists>s. decodes s = None \<and> e = ImageLoadError (''Failed to load image: '' @ s)"
proof (induction ks arbitrary: canvas outputData)
  case Nil
  then show ?case by simp
next
  case (Cons k ks)
  show ?case
  proof (cases "layersLoop decodes drawImage (faceImages faces k) canvas []")
    case (Inl e')
    with Cons.prems have "e' = e" by simp
    with Inl show ?thesis by (auto dest: layersLoop_error)
  next
    case (Inr res)
    with Cons.prems Cons.IH show ?thesis
      by (cases res) (auto simp: Let_def)
  qed
qed

lemma facesLoop_fails:
  "k \<in> set ks \<Longrightarrow> src \<in> set (faceImages faces k) \<Longrightarrow> decodes src = None \<Longrightarrow>
     \<exists>e. facesLoop decodes drawImage faces ks canvas outputData = Inl e"
proof (induction ks arbitrary: canvas outputData)
  case Nil
  then show ?case by simp
next
  case (Cons x ks)
  show ?case
  proof (cases "layersLoop decodes drawImage (faceImages faces x) canvas []")
    case (Inl e)
    then show ?thesis by simp
  next
    case (Inr res)
    have "k \<noteq> x"
    proof
      assume "k = x"
      with Cons.prems layersLoop_fails [of src "faceImages faces x" decodes drawImage canvas "[]"]
      show False using Inr by auto
    qed
    with Cons.prems have "k \<in> set ks" by simp
    from Cons.IH [OF this Cons.prems(2,3)] Inr show ?thesis
      by (cases res) (simp add: Let_def)
  qed
qed

lemma find_distinct_name:
  "distinct (map name faces) \<Longrightarrow> f \<in> set faces \<Longrightarrow>
     find (\<lambda>item. name item = name f) faces = Some f"
  by (induction faces) (auto simp: image_iff)

lemma faceImages_face:
  "distinct (map name faces) \<Longrightarrow> f \<in> set faces \<Longrightarrow> faceImages faces (name f) = images f"
  by (simp add: faceImages_def find_distinct_name)

text \<open>
  Claim C7. With face names pairwise different, if any image of any face fails to load,
  \<open>generateArduinoFaces\<close> returns no text: its promise rejects, with the error of the
  first image that failed (or with the error of the missing drawing context).
\<close>

theorem C7_failed_image_rejects:
  assumes "distinct (map name faces)"
    and "f \<in> set faces" and "src \<in> set (images f)" and "decodes src = None"
  shows "\<exists>s. decodes s = None
           \<and> generateArduinoFaces ctx decodes drawImage faces
               = Inl (if ctx then ImageLoadError (''Failed to load image: '' @ s)
                      else NoContextError)"
proof (cases ctx)
  case False
  with assms(4) show ?thesis by (auto simp: generateArduinoFaces_def)
next
  case True
  let ?run = "facesLoop decodes drawImage faces (sort (map name faces))
                (replicate (32 * 16 * 4) 0) []"
  have "name f \<in> set (sort (map name faces))"
    using assms(2) by simp
  moreover have "src \<in> set (faceImages faces (name f))"
    using assms(1-3) by (simp add: faceImages_face)
  ultimately obtain e where e: "?run = Inl e"
    using facesLoop_fails [where decodes = decodes and src = src, OF _ _ assms(4)] by blast
  from facesLoop_error [OF e] obtain s where
    "decodes s = None" "e = ImageLoadError (''Failed to load image: '' @ s)"
    by blast
  with e True show ?thesis
    by (auto simp: generateArduinoFaces_def)
qed

theorem C7_failed_image_rejects_witness:
  "distinct (map name brokenFaces)
   \<and> ''b1.png'' \<in> set (images (brokenFaces ! 0))
   \<and> brokenDecodes ''b1.png'' = None
   \<and> generateArduinoFaces True brokenDecodes opaqueDraw brokenFaces
       = Inl (ImageLoadError ''Failed to load image: b1.png'')"
proof -
  have h1: "distinct (map name brokenFaces)" by code_simp
  have h2: "brokenFaces ! 0 \<in> set brokenFaces" by code_simp
  have h3: "''b1.png'' \<in> set (images (brokenFaces ! 0))" by code_simp
  have h4: "brokenDecodes ''b1.png'' = None" by code_simp
  have d: "brokenDecodes s = None \<Longrightarrow> s = ''b1.png''" for s
    by (simp add: brokenDecodes_def split: if_splits)
  from C7_failed_image_rejects [where decodes = brokenDecodes and src = "''b1.png''"
      and ctx = True and drawImage = opaqueDraw, OF h1 h2 h3 h4]
  have "generateArduinoFaces True brokenDecodes opaqueDraw brokenFaces
       = Inl (ImageLoadError ''Failed to load image: b1.png'')"
    by (auto dest: d)
  with h1 h3 h4 show ?thesis by simp
qed

end
